theory Spec2Isabelle
  imports Complex_Main
begin

section \<open>Storm-risk scoring and shelter routing of CycloneSafeRoute\<close>

text \<open>
  A shallow embedding of the decision logic of the dashboard: the risk classifier and the
  historical stress computation of \<^verbatim>\<open>utils/storm_stress.py\<close>, the risk calculation and the
  nearest-camp scan of \<^verbatim>\<open>app.py\<close>, the routing helpers of \<^verbatim>\<open>utils/routing.py\<close> and the
  weather fetch of \<^verbatim>\<open>utils/open_meteo.py\<close>.

  Python floats are modelled as the real numbers: comparisons, sums and products are the
  exact ones, and rounding, overflow, infinities and NaN are outside the model.
\<close>

subsection \<open>Risk classifier (utils/storm_stress.py, classify\_risk)\<close>

text \<open>
  The three descriptions start with a symbol outside ASCII; each is written as the bytes of
  its UTF-8 encoding (warning sign and variation selector, high voltage sign, check mark).
\<close>

definition high_description :: string where
  "high_description =
     [CHR 0xE2, CHR 0x9A, CHR 0xA0, CHR 0xEF, CHR 0xB8, CHR 0x8F] @
     '' Severe cyclone risk - Immediate evacuation recommended''"

definition moderate_description :: string where
  "moderate_description =
     [CHR 0xE2, CHR 0x9A, CHR 0xA1] @
     '' Moderate cyclone risk - Stay alert and prepare''"

definition low_description :: string where
  "low_description =
     [CHR 0xE2, CHR 0x9C, CHR 0x85] @
     '' Low cyclone risk - Normal precautions advised''"

text \<open>The result is the tuple (risk level, colour, description).\<close>

definition classify_risk :: "real \<Rightarrow> string \<times> string \<times> string" where
  "classify_risk avg_stress =
     (if avg_stress > 2500 then (''HIGH'', ''red'', high_description)
      else if avg_stress > 1500 then (''MODERATE'', ''orange'', moderate_description)
      else (''LOW'', ''green'', low_description))"

text \<open>The order of the risk levels, LOW below MODERATE below HIGH.\<close>

definition level_rank :: "string \<Rightarrow> nat" where
  "level_rank level =
     (if level = ''HIGH'' then 2 else if level = ''MODERATE'' then 1 else 0)"

subsection \<open>Live stress score (app.py, the risk calculation)\<close>

text \<open>
  The arithmetic of the expression
  \<^verbatim>\<open>(weather['wind_speed'] ** 2) + (weather['precipitation'] * 10)\<close>.
\<close>

definition storm_stress :: "real \<Rightarrow> real \<Rightarrow> real" where
  "storm_stress w p = w ^ 2 + p * 10"

text \<open>
  The reading is the dictionary that the weather fetch returns; its values come from
  the decoded provider response and can be any Python value. A value enters the
  arithmetic as a number when it is a number or a boolean (\<^verbatim>\<open>True\<close> is 1, \<^verbatim>\<open>False\<close> is 0);
  with any other value the expression raises a TypeError, for the wind speed at the
  power and for the precipitation at the product or at the sum.
\<close>

datatype pyval =
    PNone
  | PBool bool
  | PNum real
  | PStr string
  | PList "pyval list"
  | PDict "(string \<times> pyval) list"

datatype exn = TypeError | KeyError | IndexError | AttributeError | ValueError

record weather =
  wind_speed :: pyval
  wind_gust :: pyval
  precipitation :: pyval
  weather_code :: pyval
  time :: pyval

fun as_number :: "pyval \<Rightarrow> real option" where
  "as_number (PNum x) = Some x"
| "as_number (PBool b) = Some (if b then 1 else 0)"
| "as_number _ = None"

text \<open>The two lines of the risk calculation: the score and its classification.\<close>

definition risk_calc :: "weather \<Rightarrow> exn + real \<times> (string \<times> string \<times> string)" where
  "risk_calc weather =
     (case as_number (wind_speed weather) of
        None \<Rightarrow> Inl TypeError
      | Some w \<Rightarrow>
          (case as_number (precipitation weather) of
             None \<Rightarrow> Inl TypeError
           | Some p \<Rightarrow> Inr (storm_stress w p, classify_risk (storm_stress w p))))"

subsection \<open>Historical stress (utils/storm\_stress.py, compute\_storm\_stress)\<close>

text \<open>
  A row of the ERA5 data frame (the columns \<^verbatim>\<open>10m_u_component_of_wind\<close>,
  \<^verbatim>\<open>10m_v_component_of_wind\<close> and \<^verbatim>\<open>total_precipitation\<close>), and the row with the three
  columns the function adds. The column operations of the source act on every row
  separately, so the data frame is the list of its rows.
\<close>

record era5_row =
  u_component_of_wind :: real
  v_component_of_wind :: real
  total_precipitation :: real

record stress_row = era5_row +
  col_wind_speed :: real
  col_gust_proxy :: real
  col_storm_stress :: real

definition compute_row :: "era5_row \<Rightarrow> stress_row" where
  "compute_row r =
     (let wind_speed = sqrt (u_component_of_wind r ^ 2 + v_component_of_wind r ^ 2);
          gust_proxy = wind_speed * 1.3;
          stress = gust_proxy ^ 2 + total_precipitation r * 10
      in \<lparr>u_component_of_wind = u_component_of_wind r,
          v_component_of_wind = v_component_of_wind r,
          total_precipitation = total_precipitation r,
          col_wind_speed = wind_speed,
          col_gust_proxy = gust_proxy,
          col_storm_stress = stress\<rparr>)"

definition compute_storm_stress :: "era5_row list \<Rightarrow> stress_row list" where
  "compute_storm_stress df = map compute_row df"

subsection \<open>Great-circle distance (utils/routing.py, calculate\_distance)\<close>

text \<open>
  Coordinates are pairs (latitude, longitude) in degrees. \<^verbatim>\<open>math.sqrt\<close> raises a ValueError
  on a negative argument and \<^verbatim>\<open>math.asin\<close> on an argument outside \<open>[-1, 1]\<close>.
\<close>

definition radians :: "real \<Rightarrow> real" where
  "radians x = x * (pi / 180)"

definition math_sqrt :: "real \<Rightarrow> exn + real" where
  "math_sqrt x = (if x < 0 then Inl ValueError else Inr (sqrt x))"

definition math_asin :: "real \<Rightarrow> exn + real" where
  "math_asin x = (if x < - 1 \<or> 1 < x then Inl ValueError else Inr (arcsin x))"

definition calculate_distance :: "real \<times> real \<Rightarrow> real \<times> real \<Rightarrow> exn + real" where
  "calculate_distance coord1 coord2 =
     (let lat1 = radians (fst coord1); lon1 = radians (snd coord1);
          lat2 = radians (fst coord2); lon2 = radians (snd coord2);
          dlat = lat2 - lat1;
          dlon = lon2 - lon1;
          a = (sin (dlat / 2))\<^sup>2 + cos lat1 * cos lat2 * (sin (dlon / 2))\<^sup>2
      in case math_sqrt a of
           Inl e \<Rightarrow> Inl e
         | Inr sq \<Rightarrow>
             (case math_asin sq of
                Inl e \<Rightarrow> Inl e
              | Inr s \<Rightarrow> (let c = 2 * s; r = 6371 in Inr (c * r))))"

text \<open>The quantity \<open>a\<close> of the source, as a function of the four angles in radians.\<close>

definition haversine :: "real \<Rightarrow> real \<Rightarrow> real \<Rightarrow> real \<Rightarrow> real" where
  "haversine lat1 lon1 lat2 lon2 =
     (sin ((lat2 - lat1) / 2))\<^sup>2 + cos lat1 * cos lat2 * (sin ((lon2 - lon1) / 2))\<^sup>2"

subsection \<open>Nearest camp (app.py, the scan over the camps)\<close>

text \<open>
  A row of the relief-camp table. The scan starts from no camp and the bound
  \<^verbatim>\<open>float('inf')\<close>, below which every distance lies, and replaces both whenever a camp is
  strictly nearer than the bound. An exception of the distance calculation leaves the loop.
\<close>

record camp =
  camp_name :: string
  latitude :: real
  longitude :: real
  capacity :: int

datatype bound = Infinity | Finite real

fun below :: "real \<Rightarrow> bound \<Rightarrow> bool" where
  "below d Infinity = True"
| "below d (Finite m) = (d < m)"

fun nearest_camp_loop ::
  "real \<times> real \<Rightarrow> camp list \<Rightarrow> camp option \<times> bound \<Rightarrow> exn + camp option \<times> bound" where
  "nearest_camp_loop u [] (nearest_camp, min_dist) = Inr (nearest_camp, min_dist)"
| "nearest_camp_loop u (camp # camps) (nearest_camp, min_dist) =
     (case calculate_distance u (latitude camp, longitude camp) of
        Inl e \<Rightarrow> Inl e
      | Inr d \<Rightarrow>
          if below d min_dist then nearest_camp_loop u camps (Some camp, Finite d)
          else nearest_camp_loop u camps (nearest_camp, min_dist))"

definition nearest_camp_scan :: "real \<times> real \<Rightarrow> camp list \<Rightarrow> exn + camp option \<times> bound" where
  "nearest_camp_scan u camps = nearest_camp_loop u camps (None, Infinity)"

text \<open>
  The panel of the nearest camp is rendered only when the scan selected a camp; it shows
  the camp and the distance found.
\<close>

definition nearest_camp_panel ::
  "real \<times> real \<Rightarrow> camp list \<Rightarrow> exn + (camp \<times> bound) option" where
  "nearest_camp_panel u camps =
     (case nearest_camp_scan u camps of
        Inl e \<Rightarrow> Inl e
      | Inr (nearest_camp, min_dist) \<Rightarrow>
          (case nearest_camp of
             None \<Rightarrow> Inr None
           | Some camp \<Rightarrow> Inr (Some (camp, min_dist))))"

subsection \<open>Decoded provider responses\<close>

text \<open>
  Python's reading of a decoded value: its truth value, \<^verbatim>\<open>d.get(k, default)\<close> on a
  dictionary, the subscript with a string key and the subscript with the index 0. The items
  of a \<open>PDict\<close> are those of the decoded dictionary, whose keys are distinct strings; the
  subscript 0 of a dictionary therefore finds no key.
\<close>

fun truthy :: "pyval \<Rightarrow> bool" where
  "truthy PNone = False"
| "truthy (PBool b) = b"
| "truthy (PNum x) = (x \<noteq> 0)"
| "truthy (PStr s) = (s \<noteq> [])"
| "truthy (PList xs) = (xs \<noteq> [])"
| "truthy (PDict kvs) = (kvs \<noteq> [])"

definition dict_get :: "(string \<times> pyval) list \<Rightarrow> string \<Rightarrow> pyval \<Rightarrow> pyval" where
  "dict_get d k dflt = (case map_of d k of None \<Rightarrow> dflt | Some v \<Rightarrow> v)"

fun subscript_key :: "pyval \<Rightarrow> string \<Rightarrow> exn + pyval" where
  "subscript_key (PDict d) k = (case map_of d k of None \<Rightarrow> Inl KeyError | Some v \<Rightarrow> Inr v)"
| "subscript_key _ k = Inl TypeError"

fun subscript_zero :: "pyval \<Rightarrow> exn + pyval" where
  "subscript_zero (PList []) = Inl IndexError"
| "subscript_zero (PList (x # xs)) = Inr x"
| "subscript_zero (PStr []) = Inl IndexError"
| "subscript_zero (PStr (c # cs)) = Inr (PStr [c])"
| "subscript_zero (PDict d) = Inl KeyError"
| "subscript_zero _ = Inl TypeError"

subsection \<open>The providers\<close>

text \<open>
  A request is identified by what the source puts into the URL: for the routing provider
  the pair \<^verbatim>\<open>lon,lat;lon,lat\<close> of source and destination, for the weather provider the
  latitude and the longitude. \<^verbatim>\<open>requests.get\<close> raises a connection error (which stands
  for every failure of the transport other than a timeout) or a timeout, or returns a
  response with a status code and a body; the body is \<open>None\<close> when it does not
  decode as JSON. The network is the list of the requests made so far and the provider's
  answer to a request after that history, so that an answer may change from call to call.
\<close>

datatype url =
    OsrmRoute real real real real
  | OpenMeteoForecast real real

datatype http_outcome =
    ConnectionError
  | Timeout
  | Response nat "pyval option"

record net =
  calls :: "url list"
  respond :: "url list \<Rightarrow> url \<Rightarrow> http_outcome"

definition requests_get :: "net \<Rightarrow> url \<Rightarrow> http_outcome \<times> net" where
  "requests_get net u = (respond net (calls net) u, net\<lparr>calls := calls net @ [u]\<rparr>)"

text \<open>\<^verbatim>\<open>raise_for_status\<close> raises an HTTPError for the status codes 400 to 599.\<close>

definition raise_for_status :: "nat \<Rightarrow> bool" where
  "raise_for_status status = (400 \<le> status \<and> status < 600)"

subsection \<open>Fastest route (utils/routing.py, get\_fastest\_route)\<close>

text \<open>
  The body of the \<^verbatim>\<open>try\<close> block as a function of what the request does. The handler
  catches \<^verbatim>\<open>requests.RequestException\<close>: the connection error, the timeout, the HTTPError of
  the status check and the decoding error of \<^verbatim>\<open>response.json()\<close> (a RequestException in
  requests 2.27 and later) all yield \<^verbatim>\<open>None\<close>. A body that is not a dictionary has no
  \<^verbatim>\<open>get\<close>, and the AttributeError is not caught. The message printed by the handler is
  not modelled.
\<close>

definition route_of_outcome :: "http_outcome \<Rightarrow> exn + pyval option" where
  "route_of_outcome outcome =
     (case outcome of
        ConnectionError \<Rightarrow> Inr None
      | Timeout \<Rightarrow> Inr None
      | Response status body \<Rightarrow>
          if raise_for_status status then Inr None
          else
            (case body of
               None \<Rightarrow> Inr None
             | Some (PDict data) \<Rightarrow>
                 if dict_get data ''code'' PNone = PStr ''Ok'' \<and>
                    truthy (dict_get data ''routes'' PNone)
                 then
                   (case subscript_key (PDict data) ''routes'' of
                      Inl e \<Rightarrow> Inl e
                    | Inr routes \<Rightarrow>
                        (case subscript_zero routes of
                           Inl e \<Rightarrow> Inl e
                         | Inr route \<Rightarrow> Inr (Some route)))
                 else Inr None
             | Some _ \<Rightarrow> Inl AttributeError))"

definition get_fastest_route ::
  "net \<Rightarrow> real \<times> real \<Rightarrow> real \<times> real \<Rightarrow> (exn + pyval option) \<times> net" where
  "get_fastest_route net src dst =
     (let url = OsrmRoute (snd src) (fst src) (snd dst) (fst dst);
          (outcome, net') = requests_get net url
      in (route_of_outcome outcome, net'))"

subsection \<open>Ranked routes (utils/routing.py, get\_multiple\_routes)\<close>

text \<open>
  A destination is a row of the camp table. The entry of a destination is built field by
  field, in the order of the dictionary display: the subscripts raise a KeyError on a missing
  key and a TypeError on a value that is not a dictionary, and the divisions raise a
  TypeError on a value that is not a number.
\<close>

record ranked_route =
  destination :: camp
  distance_km :: real
  duration_min :: real
  geometry :: pyval

definition number_at :: "pyval \<Rightarrow> string \<Rightarrow> exn + real" where
  "number_at route k =
     (case subscript_key route k of
        Inl e \<Rightarrow> Inl e
      | Inr v \<Rightarrow> (case as_number v of None \<Rightarrow> Inl TypeError | Some x \<Rightarrow> Inr x))"

definition route_entry :: "camp \<Rightarrow> pyval \<Rightarrow> exn + ranked_route" where
  "route_entry dest route =
     (case number_at route ''distance'' of
        Inl e \<Rightarrow> Inl e
      | Inr distance \<Rightarrow>
          (case number_at route ''duration'' of
             Inl e \<Rightarrow> Inl e
           | Inr duration \<Rightarrow>
               (case subscript_key route ''geometry'' of
                  Inl e \<Rightarrow> Inl e
                | Inr g \<Rightarrow>
                    Inr \<lparr>destination = dest,
                         distance_km = distance / 1000,
                         duration_min = duration / 60,
                         geometry = g\<rparr>)))"

fun routes_loop ::
  "net \<Rightarrow> real \<times> real \<Rightarrow> camp list \<Rightarrow> ranked_route list \<Rightarrow> (exn + ranked_route list) \<times> net" where
  "routes_loop net src [] routes = (Inr routes, net)"
| "routes_loop net src (dest # rest) routes =
     (case get_fastest_route net src (latitude dest, longitude dest) of
        (Inl e, net') \<Rightarrow> (Inl e, net')
      | (Inr None, net') \<Rightarrow> routes_loop net' src rest routes
      | (Inr (Some route), net') \<Rightarrow>
          if truthy route then
            (case route_entry dest route of
               Inl e \<Rightarrow> (Inl e, net')
             | Inr entry \<Rightarrow> routes_loop net' src rest (routes @ [entry]))
          else routes_loop net' src rest routes)"

text \<open>\<^verbatim>\<open>list.sort\<close> with a key is stable, as is \<^const>\<open>sort_key\<close>.\<close>

definition get_multiple_routes ::
  "net \<Rightarrow> real \<times> real \<Rightarrow> camp list \<Rightarrow> (exn + ranked_route list) \<times> net" where
  "get_multiple_routes net src destinations =
     (case routes_loop net src destinations [] of
        (Inl e, net') \<Rightarrow> (Inl e, net')
      | (Inr routes, net') \<Rightarrow> (Inr (sort_key duration_min routes), net'))"

subsection \<open>Weather fetch (utils/open\_meteo.py, fetch\_realtime\_weather)\<close>

text \<open>
  The handler catches every \<^verbatim>\<open>Exception\<close> and returns the fallback record: the failures
  of the request, the HTTPError, the decoding error, and the AttributeError of \<^verbatim>\<open>get\<close> on
  a body or on a \<^verbatim>\<open>current\<close> value that is not a dictionary.
\<close>

definition fallback_weather :: weather where
  "fallback_weather =
     \<lparr>wind_speed = PNum 0, wind_gust = PNum 0, precipitation = PNum 0,
      weather_code = PNum 0, time = PStr ''N/A''\<rparr>"

definition weather_of_outcome :: "http_outcome \<Rightarrow> weather" where
  "weather_of_outcome outcome =
     (case outcome of
        ConnectionError \<Rightarrow> fallback_weather
      | Timeout \<Rightarrow> fallback_weather
      | Response status body \<Rightarrow>
          if raise_for_status status then fallback_weather
          else
            (case body of
               None \<Rightarrow> fallback_weather
             | Some (PDict data) \<Rightarrow>
                 (case dict_get data ''current'' (PDict []) of
                    PDict current \<Rightarrow>
                      \<lparr>wind_speed = dict_get current ''wind_speed_10m'' (PNum 0),
                       wind_gust = dict_get current ''wind_gusts_10m'' (PNum 0),
                       precipitation = dict_get current ''precipitation'' (PNum 0),
                       weather_code = dict_get current ''weather_code'' (PNum 0),
                       time = dict_get current ''time'' (PStr '''')\<rparr>
                  | _ \<Rightarrow> fallback_weather)
             | Some _ \<Rightarrow> fallback_weather))"

definition fetch_realtime_weather :: "net \<Rightarrow> real \<Rightarrow> real \<Rightarrow> weather \<times> net" where
  "fetch_realtime_weather net lat lon =
     (let (outcome, net') = requests_get net (OpenMeteoForecast lat lon)
      in (weather_of_outcome outcome, net'))"

subsection \<open>Specification of the ranking\<close>

text \<open>
  The ranking in the words of the specification, to compare \<open>get_multiple_routes\<close> with.
  The fastest route to the \<open>i\<close>-th shelter is asked for once, after the requests for the
  shelters before it. A route result with a distance in meters, a duration in seconds and
  a path geometry is joined with its shelter; an unavailable route contributes nothing. The
  remaining records are sorted by duration.
\<close>

definition osrm_url :: "real \<times> real \<Rightarrow> camp \<Rightarrow> url" where
  "osrm_url src dest = OsrmRoute (snd src) (fst src) (longitude dest) (latitude dest)"

fun ranked_route_spec :: "camp \<Rightarrow> pyval \<Rightarrow> ranked_route option" where
  "ranked_route_spec shelter (PDict kvs) =
     (case map_of kvs ''distance'' of
        Some (PNum d) \<Rightarrow>
          (case map_of kvs ''duration'' of
             Some (PNum t) \<Rightarrow>
               (case map_of kvs ''geometry'' of
                  Some g \<Rightarrow>
                    Some \<lparr>destination = shelter, distance_km = d / 1000,
                          duration_min = t / 60, geometry = g\<rparr>
                | None \<Rightarrow> None)
           | _ \<Rightarrow> None)
      | _ \<Rightarrow> None)"
| "ranked_route_spec shelter _ = None"

definition fastest_at :: "net \<Rightarrow> real \<times> real \<Rightarrow> camp list \<Rightarrow> nat \<Rightarrow> exn + pyval option" where
  "fastest_at net src shelters i =
     route_of_outcome
       (respond net (calls net @ map (osrm_url src) (take i shelters))
          (osrm_url src (shelters ! i)))"

definition ranked_at :: "net \<Rightarrow> real \<times> real \<Rightarrow> camp list \<Rightarrow> nat \<Rightarrow> ranked_route option" where
  "ranked_at net src shelters i =
     (case fastest_at net src shelters i of
        Inr (Some route) \<Rightarrow> ranked_route_spec (shelters ! i) route
      | _ \<Rightarrow> None)"

definition available_routes :: "net \<Rightarrow> real \<times> real \<Rightarrow> camp list \<Rightarrow> ranked_route list" where
  "available_routes net src shelters =
     List.map_filter (ranked_at net src shelters) [0..<length shelters]"

definition rankRoutes_spec :: "net \<Rightarrow> real \<times> real \<Rightarrow> camp list \<Rightarrow> ranked_route list" where
  "rankRoutes_spec net src shelters = sort_key duration_min (available_routes net src shelters)"

text \<open>
  The provider keeps to its interface when every answer is either no route or a route
  that has a numeric distance, a numeric duration and a geometry.
\<close>

fun route_well_formed :: "pyval \<Rightarrow> bool" where
  "route_well_formed (PDict kvs) =
     (case map_of kvs ''distance'' of
        Some (PNum d) \<Rightarrow>
          (case map_of kvs ''duration'' of
             Some (PNum t) \<Rightarrow> map_of kvs ''geometry'' \<noteq> None
           | _ \<Rightarrow> False)
      | _ \<Rightarrow> False)"
| "route_well_formed _ = False"

definition outcome_well_formed :: "http_outcome \<Rightarrow> bool" where
  "outcome_well_formed outcome =
     (case route_of_outcome outcome of
        Inl e \<Rightarrow> False
      | Inr None \<Rightarrow> True
      | Inr (Some route) \<Rightarrow> route_well_formed route)"

definition provider_well_formed :: "net \<Rightarrow> bool" where
  "provider_well_formed net = (\<forall>h u. outcome_well_formed (respond net h u))"

text \<open>
  The record that parsing a \<^verbatim>\<open>current\<close> dictionary is to give: each field present, and 0 or
  the empty string where it is absent.
\<close>

definition parsed_weather :: "(string \<times> pyval) list \<Rightarrow> weather" where
  "parsed_weather current =
     \<lparr>wind_speed = (case map_of current ''wind_speed_10m'' of None \<Rightarrow> PNum 0 | Some v \<Rightarrow> v),
      wind_gust = (case map_of current ''wind_gusts_10m'' of None \<Rightarrow> PNum 0 | Some v \<Rightarrow> v),
      precipitation = (case map_of current ''precipitation'' of None \<Rightarrow> PNum 0 | Some v \<Rightarrow> v),
      weather_code = (case map_of current ''weather_code'' of None \<Rightarrow> PNum 0 | Some v \<Rightarrow> v),
      time = (case map_of current ''time'' of None \<Rightarrow> PStr '''' | Some v \<Rightarrow> v)\<rparr>"

subsection \<open>Concrete providers and shelters\<close>

text \<open>
  Networks that fail to connect, time out, answer without a route and answer with two
  routes; weather answers with a single field and with a \<^verbatim>\<open>current\<close> that is null; four
  shelters of which the second is unreachable, the first and the third are ten minutes
  away and the fourth is five minutes away.
\<close>

definition demo_route :: "real \<Rightarrow> real \<Rightarrow> pyval" where
  "demo_route d t =
     PDict [(''distance'', PNum d), (''duration'', PNum t),
            (''geometry'', PDict [(''type'', PStr ''LineString'')])]"

definition osrm_body :: "pyval \<Rightarrow> pyval" where
  "osrm_body routes = PDict [(''code'', PStr ''Ok''), (''routes'', routes)]"

definition offline_net :: net where
  "offline_net = \<lparr>calls = [], respond = (\<lambda>h u. ConnectionError)\<rparr>"

definition slow_net :: net where
  "slow_net = \<lparr>calls = [], respond = (\<lambda>h u. Timeout)\<rparr>"

definition no_route_net :: net where
  "no_route_net =
     \<lparr>calls = [],
      respond = (\<lambda>h u. Response 200 (Some (PDict [(''code'', PStr ''NoRoute''), (''routes'', PList [])])))\<rparr>"

definition one_route_net :: net where
  "one_route_net =
     \<lparr>calls = [],
      respond = (\<lambda>h u. Response 200 (Some (osrm_body (PList [demo_route 3000 300, demo_route 9000 900]))))\<rparr>"

definition sparse_weather_net :: net where
  "sparse_weather_net =
     \<lparr>calls = [],
      respond = (\<lambda>h u. Response 200
        (Some (PDict [(''current'', PDict [(''wind_speed_10m'', PNum 42)])])))\<rparr>"

definition garbled_weather_net :: net where
  "garbled_weather_net =
     \<lparr>calls = [],
      respond = (\<lambda>h u. Response 200 (Some (PDict [(''current'', PNone)])))\<rparr>"

definition shelter_at :: "string \<Rightarrow> real \<Rightarrow> camp" where
  "shelter_at name x = \<lparr>camp_name = name, latitude = x, longitude = x, capacity = 10\<rparr>"

definition four_shelters :: "camp list" where
  "four_shelters = [shelter_at ''A'' 1, shelter_at ''B'' 2, shelter_at ''C'' 3, shelter_at ''D'' 4]"

definition ranking_net :: net where
  "ranking_net =
     \<lparr>calls = [],
      respond = (\<lambda>h u.
        if u = OsrmRoute 0 0 2 2 then Timeout
        else if u = OsrmRoute 0 0 4 4
          then Response 200 (Some (osrm_body (PList [demo_route 3000 300])))
        else Response 200 (Some (osrm_body (PList [demo_route 6000 600]))))\<rparr>"

text \<open>
  Three camps for concrete runs of the scan from the origin (0, 0): one half a great
  circle away and two at the origin itself.
\<close>

definition far_camp :: camp where
  "far_camp = \<lparr>camp_name = ''Far'', latitude = 0, longitude = 180, capacity = 100\<rparr>"

definition first_near_camp :: camp where
  "first_near_camp = \<lparr>camp_name = ''Near A'', latitude = 0, longitude = 0, capacity = 50\<rparr>"

definition second_near_camp :: camp where
  "second_near_camp = \<lparr>camp_name = ''Near B'', latitude = 0, longitude = 0, capacity = 70\<rparr>"

section \<open>Properties\<close>

subsection \<open>Risk classifier\<close>

text \<open>
  C1: for every stress value \<open>s\<close>, \<open>classify_risk s\<close> is HIGH exactly when \<open>s > 2500\<close>,
  MODERATE exactly when \<open>1500 < s \<le> 2500\<close> and LOW exactly when \<open>s \<le> 1500\<close>, which
  includes every negative value; the result is always one of the three fixed tuples of the
  table, and the values 2500.01, 2500, 1500, 0 and -1 are classified HIGH, MODERATE, LOW,
  LOW and LOW.
\<close>

theorem classify_risk_tiers:
  "(fst (classify_risk s) = ''HIGH'' \<longleftrightarrow> s > 2500) \<and>
   (fst (classify_risk s) = ''MODERATE'' \<longleftrightarrow> 1500 < s \<and> s \<le> 2500) \<and>
   (fst (classify_risk s) = ''LOW'' \<longleftrightarrow> s \<le> 1500) \<and>
   (classify_risk s = (''HIGH'', ''red'', high_description) \<or>
    classify_risk s = (''MODERATE'', ''orange'', moderate_description) \<or>
    classify_risk s = (''LOW'', ''green'', low_description)) \<and>
   classify_risk (- \<bar>s\<bar>) = (''LOW'', ''green'', low_description) \<and>
   fst (classify_risk 2500.01) = ''HIGH'' \<and>
   fst (classify_risk 2500) = ''MODERATE'' \<and>
   fst (classify_risk 1500) = ''LOW'' \<and>
   fst (classify_risk 0) = ''LOW'' \<and>
   fst (classify_risk (- 1)) = ''LOW''"
  by (auto simp: classify_risk_def)

subsection \<open>Stress score\<close>

text \<open>
  C6: for every wind speed \<open>w\<close> and precipitation \<open>p\<close> the stress score is
  \<open>w\<^sup>2 + p * 10\<close>, the risk calculation of the dashboard on a reading with these two
  numbers yields this score and its classification, the score of (0, 0) is 0 and the
  score of (10, 5) is 150.
\<close>

theorem storm_stress_formula:
  "storm_stress w p = w\<^sup>2 + p * 10 \<and>
   risk_calc (weather\<lparr>wind_speed := PNum w, precipitation := PNum p\<rparr>) =
     Inr (w\<^sup>2 + p * 10, classify_risk (w\<^sup>2 + p * 10)) \<and>
   storm_stress 0 0 = 0 \<and>
   storm_stress 10 5 = 150"
  by (simp add: storm_stress_def risk_calc_def)

text \<open>
  C10: on non-negative inputs the stress score does not decrease when the wind speed or
  the precipitation grows, and neither does the rank of the risk level it is classified
  as (LOW below MODERATE below HIGH).
\<close>

theorem storm_stress_monotone:
  assumes "0 \<le> w" and "w \<le> w'" and "0 \<le> p" and "p \<le> p'"
  shows "storm_stress w p \<le> storm_stress w' p' \<and>
         level_rank (fst (classify_risk (storm_stress w p))) \<le>
         level_rank (fst (classify_risk (storm_stress w' p')))"
proof -
  from assms(1,2) have "w\<^sup>2 \<le> w'\<^sup>2"
    by (rule power_mono [rotated])
  with assms(4) have le: "storm_stress w p \<le> storm_stress w' p'"
    by (simp add: storm_stress_def)
  then have "level_rank (fst (classify_risk (storm_stress w p))) \<le>
             level_rank (fst (classify_risk (storm_stress w' p')))"
    by (simp add: classify_risk_def level_rank_def)
  with le show ?thesis ..
qed

theorem storm_stress_monotone_witness:
  "storm_stress 10 5 \<le> storm_stress 50 5 \<and>
   level_rank (fst (classify_risk (storm_stress 10 5))) = 0 \<and>
   level_rank (fst (classify_risk (storm_stress 50 5))) = 2 \<and>
   level_rank (fst (classify_risk (storm_stress 10 5))) \<le>
   level_rank (fst (classify_risk (storm_stress 50 5)))"
  using storm_stress_monotone [of 10 50 5 5]
  by (simp add: storm_stress_def classify_risk_def level_rank_def)

text \<open>
  C7: in every row the historical variant stores the gust proxy
  \<open>1.3 * sqrt (u\<^sup>2 + v\<^sup>2)\<close> and a stress that is the live formula applied to the gust
  proxy and the total precipitation, that is
  \<open>(1.3 * sqrt (u\<^sup>2 + v\<^sup>2))\<^sup>2 + total_precipitation * 10\<close>.
\<close>

theorem historical_stress_is_base_formula:
  "map col_gust_proxy (compute_storm_stress df) =
     map (\<lambda>r. 1.3 * sqrt ((u_component_of_wind r)\<^sup>2 + (v_component_of_wind r)\<^sup>2)) df \<and>
   map col_storm_stress (compute_storm_stress df) =
     map (\<lambda>r. storm_stress
            (1.3 * sqrt ((u_component_of_wind r)\<^sup>2 + (v_component_of_wind r)\<^sup>2))
            (total_precipitation r)) df \<and>
   map col_storm_stress (compute_storm_stress df) =
     map (\<lambda>r. (1.3 * sqrt ((u_component_of_wind r)\<^sup>2 + (v_component_of_wind r)\<^sup>2))\<^sup>2 +
            total_precipitation r * 10) df"
  by (simp add: compute_storm_stress_def compute_row_def storm_stress_def Let_def
      mult.commute)

subsection \<open>Great-circle distance\<close>

lemma sin_half_sq: "(sin (x / 2))\<^sup>2 = (1 - cos x) / 2" for x :: real
  using cos_double_sin [of "x / 2"] by simp

lemma haversine_cos:
  "haversine lat1 lon1 lat2 lon2 =
     (1 - (sin lat1 * sin lat2 + cos lat1 * cos lat2 * cos (lon2 - lon1))) / 2"
proof -
  have "cos (lat2 - lat1) = cos lat1 * cos lat2 + sin lat1 * sin lat2"
    by (simp add: cos_diff mult.commute)
  then show ?thesis
    unfolding haversine_def sin_half_sq
    by (simp add: algebra_simps diff_divide_distrib add_divide_distrib)
qed

lemma sin_cos_mix_bound:
  fixes x y c :: real
  assumes "- 1 \<le> c" and "c \<le> 1"
  shows "- 1 \<le> sin x * sin y + cos x * cos y * c"
    and "sin x * sin y + cos x * cos y * c \<le> 1"
proof -
  define e1 where "e1 = sin x * sin y + cos x * cos y"
  define e2 where "e2 = sin x * sin y - cos x * cos y"
  have e1: "e1 = cos (x - y)" by (simp add: e1_def cos_diff)
  have e2: "e2 = - cos (x + y)" by (simp add: e2_def cos_add)
  have b1: "- 1 \<le> e1" "e1 \<le> 1" unfolding e1 by simp_all
  have b2: "- 1 \<le> e2" "e2 \<le> 1" unfolding e2 by simp_all
  define u where "u = (1 + c) / 2 * e1"
  define v where "v = (1 - c) / 2 * e2"
  have split: "sin x * sin y + cos x * cos y * c = u + v"
    by (simp add: u_def v_def e1_def e2_def algebra_simps add_divide_distrib
        diff_divide_distrib)
  have p: "0 \<le> (1 + c) / 2" "0 \<le> (1 - c) / 2" using assms by simp_all
  have "u \<le> (1 + c) / 2 * 1" "v \<le> (1 - c) / 2 * 1"
    unfolding u_def v_def
    by (rule mult_left_mono [OF b1(2) p(1)], rule mult_left_mono [OF b2(2) p(2)])
  then have "u + v \<le> 1"
    by simp
  then show "sin x * sin y + cos x * cos y * c \<le> 1"
    by (simp only: split)
  have "(1 + c) / 2 * (- 1) \<le> u" "(1 - c) / 2 * (- 1) \<le> v"
    unfolding u_def v_def
    by (rule mult_left_mono [OF b1(1) p(1)], rule mult_left_mono [OF b2(1) p(2)])
  then have "- 1 \<le> u + v"
    by (simp add: field_simps)
  then show "- 1 \<le> sin x * sin y + cos x * cos y * c"
    by (simp only: split)
qed

lemma haversine_range: "0 \<le> haversine lat1 lon1 lat2 lon2" "haversine lat1 lon1 lat2 lon2 \<le> 1"
  using sin_cos_mix_bound [of "cos (lon2 - lon1)" lat1 lat2]
  by (simp_all add: haversine_cos)

lemma calculate_distance_haversine:
  "calculate_distance c1 c2 =
     Inr (2 * arcsin (sqrt (haversine (radians (fst c1)) (radians (snd c1))
                                      (radians (fst c2)) (radians (snd c2)))) * 6371)"
proof -
  let ?a = "haversine (radians (fst c1)) (radians (snd c1)) (radians (fst c2)) (radians (snd c2))"
  have a: "0 \<le> ?a" "?a \<le> 1" by (rule haversine_range)+
  then have "0 \<le> sqrt ?a" "sqrt ?a \<le> 1" by simp_all
  then have "\<not> sqrt ?a < - 1" "\<not> 1 < sqrt ?a" by linarith+
  with a have "math_sqrt ?a = Inr (sqrt ?a)" "math_asin (sqrt ?a) = Inr (arcsin (sqrt ?a))"
    by (simp_all add: math_sqrt_def math_asin_def)
  then show ?thesis
    by (simp add: calculate_distance_def Let_def haversine_def)
qed

lemma haversine_sym: "haversine lat1 lon1 lat2 lon2 = haversine lat2 lon2 lat1 lon1"
  by (simp add: haversine_cos mult.commute cos_diff)

text \<open>
  C8: the distance from \<open>a\<close> to \<open>b\<close> is the distance from \<open>b\<close> to \<open>a\<close>, and the distance
  from a point to itself is exactly 0; the function is a pure function of its arguments,
  and it never raises.
\<close>

theorem calculate_distance_symmetric_zero:
  "calculate_distance a b = calculate_distance b a \<and> calculate_distance a a = Inr 0"
proof
  show "calculate_distance a b = calculate_distance b a"
    unfolding calculate_distance_haversine
    by (subst haversine_sym) (rule refl)
  show "calculate_distance a a = Inr 0"
    unfolding calculate_distance_haversine
    by (simp add: haversine_def)
qed

subsection \<open>Nearest camp\<close>

lemma calculate_distance_total: "\<exists>d. calculate_distance a b = Inr d"
  by (simp add: calculate_distance_haversine)

lemma nearest_camp_loop_Cons:
  "nearest_camp_loop u (camp # camps) (n, m) =
     (if below (projr (calculate_distance u (latitude camp, longitude camp))) m
      then nearest_camp_loop u camps
             (Some camp, Finite (projr (calculate_distance u (latitude camp, longitude camp))))
      else nearest_camp_loop u camps (n, m))"
proof -
  obtain d where "calculate_distance u (latitude camp, longitude camp) = Inr d"
    using calculate_distance_total by blast
  then show ?thesis by simp
qed

lemma nearest_camp_loop_snoc:
  "nearest_camp_loop u (camps @ [camp]) st =
     (case nearest_camp_loop u camps st of
        Inl e \<Rightarrow> Inl e
      | Inr st' \<Rightarrow> nearest_camp_loop u [camp] st')"
proof (induction camps arbitrary: st)
  case Nil
  show ?case by (cases st) simp
next
  case (Cons c camps)
  obtain n m where st: "st = (n, m)" by (cases st)
  show ?case
    unfolding st append_Cons nearest_camp_loop_Cons using Cons.IH by simp
qed

lemma scan_singleton_step:
  "nearest_camp_loop u [camp] (n, m) =
     (if below (projr (calculate_distance u (latitude camp, longitude camp))) m
      then Inr (Some camp, Finite (projr (calculate_distance u (latitude camp, longitude camp))))
      else Inr (n, m))"
  unfolding nearest_camp_loop_Cons by simp

lemma scan_first_minimum:
  "camps \<noteq> [] \<Longrightarrow>
   \<exists>i < length camps.
     nearest_camp_scan u camps =
       Inr (Some (camps ! i),
            Finite (projr (calculate_distance u (latitude (camps ! i), longitude (camps ! i))))) \<and>
     (\<forall>j < length camps.
        projr (calculate_distance u (latitude (camps ! i), longitude (camps ! i)))
          \<le> projr (calculate_distance u (latitude (camps ! j), longitude (camps ! j)))) \<and>
     (\<forall>j < i.
        projr (calculate_distance u (latitude (camps ! i), longitude (camps ! i)))
          < projr (calculate_distance u (latitude (camps ! j), longitude (camps ! j))))"
proof (induction camps rule: rev_induct)
  case Nil
  then show ?case by simp
next
  case (snoc c camps)
  let ?D = "\<lambda>x. projr (calculate_distance u (latitude x, longitude x))"
  show ?case
  proof (cases "camps = []")
    case True
    then show ?thesis
      by (simp add: nearest_camp_scan_def scan_singleton_step del: nearest_camp_loop.simps(2))
  next
    case False
    from snoc.IH [OF False] obtain i where i: "i < length camps"
      and res: "nearest_camp_scan u camps = Inr (Some (camps ! i), Finite (?D (camps ! i)))"
      and least: "\<forall>j < length camps. ?D (camps ! i) \<le> ?D (camps ! j)"
      and first: "\<forall>j < i. ?D (camps ! i) < ?D (camps ! j)"
      by blast
    have run: "nearest_camp_scan u (camps @ [c]) =
        (if ?D c < ?D (camps ! i) then Inr (Some c, Finite (?D c))
         else Inr (Some (camps ! i), Finite (?D (camps ! i))))"
      using res
      by (simp add: nearest_camp_scan_def nearest_camp_loop_snoc scan_singleton_step
          del: nearest_camp_loop.simps(2))
    show ?thesis
    proof (cases "?D c < ?D (camps ! i)")
      case True
      have "\<forall>j < length (camps @ [c]). ?D c \<le> ?D ((camps @ [c]) ! j)"
        using True least by (auto simp: nth_append less_Suc_eq intro: order_trans less_imp_le)
      moreover have "\<forall>j < length camps. ?D c < ?D ((camps @ [c]) ! j)"
        using True least by (auto simp: nth_append intro: less_le_trans)
      ultimately show ?thesis
        using run True by (intro exI [of _ "length camps"]) simp
    next
      case False
      have "\<forall>j < length (camps @ [c]). ?D (camps ! i) \<le> ?D ((camps @ [c]) ! j)"
        using False least by (auto simp: nth_append less_Suc_eq)
      moreover have "\<forall>j < i. ?D (camps ! i) < ?D ((camps @ [c]) ! j)"
        using first i by (auto simp: nth_append)
      ultimately show ?thesis
        using run False i by (intro exI [of _ i]) (simp add: nth_append)
    qed
  qed
qed

text \<open>
  C2 (the claim as stated fails): on the empty camp list the scan raises nothing; it
  returns normally with no camp selected and the bound still infinite, and the panel is
  skipped.
\<close>

theorem empty_scan_counterexample:
  "nearest_camp_scan (0, 0) [] = Inr (None, Infinity) \<and>
   nearest_camp_panel (0, 0) [] = Inr None"
  by (simp add: nearest_camp_scan_def nearest_camp_panel_def)

text \<open>
  C2 (as amended): on the empty camp list the scan raises no error; it returns normally
  with no camp selected and the bound still infinite, and the panel of the nearest camp is
  skipped. The scan has no error condition: on every camp list it returns normally.
\<close>

theorem scan_never_raises:
  "nearest_camp_scan u [] = Inr (None, Infinity) \<and>
   nearest_camp_panel u [] = Inr None \<and>
   (\<exists>r. nearest_camp_scan u camps = Inr r)"
proof -
  have empty: "nearest_camp_scan u [] = Inr (None, Infinity)"
    by (simp add: nearest_camp_scan_def)
  have "\<exists>r. nearest_camp_scan u camps = Inr r"
  proof (cases "camps = []")
    case True
    with empty show ?thesis by simp
  next
    case False
    from scan_first_minimum [OF False, of u] show ?thesis by blast
  qed
  with empty show ?thesis
    by (simp add: nearest_camp_panel_def)
qed

text \<open>
  C4: on a non-empty camp list the scan computes the distance from the origin to every
  camp and returns a camp at minimal distance together with that distance; among the camps
  at minimal distance it returns the first one of the list.
\<close>

theorem nearest_camp_first_minimum:
  assumes "camps \<noteq> []"
  shows "\<exists>i d. i < length camps \<and>
           calculate_distance u (latitude (camps ! i), longitude (camps ! i)) = Inr d \<and>
           nearest_camp_scan u camps = Inr (Some (camps ! i), Finite d) \<and>
           (\<forall>j < length camps. \<exists>d'.
              calculate_distance u (latitude (camps ! j), longitude (camps ! j)) = Inr d' \<and>
              d \<le> d') \<and>
           (\<forall>j < i. \<exists>d'.
              calculate_distance u (latitude (camps ! j), longitude (camps ! j)) = Inr d' \<and>
              d < d')"
proof -
  let ?D = "\<lambda>x. projr (calculate_distance u (latitude x, longitude x))"
  have D: "calculate_distance u (latitude x, longitude x) = Inr (?D x)" for x
    using calculate_distance_total [of u "(latitude x, longitude x)"] by auto
  from scan_first_minimum [OF assms, of u] obtain i where
    "i < length camps"
    "nearest_camp_scan u camps = Inr (Some (camps ! i), Finite (?D (camps ! i)))"
    "\<forall>j < length camps. ?D (camps ! i) \<le> ?D (camps ! j)"
    "\<forall>j < i. ?D (camps ! i) < ?D (camps ! j)"
    by blast
  then show ?thesis
    using D by (intro exI [of _ i] exI [of _ "?D (camps ! i)"]) auto
qed

theorem nearest_camp_first_minimum_witness:
  "[far_camp, first_near_camp, second_near_camp] \<noteq> [] \<and>
   nearest_camp_scan (0, 0) [far_camp, first_near_camp, second_near_camp] =
     Inr (Some first_near_camp, Finite 0) \<and>
   (\<exists>i d. i < length [far_camp, first_near_camp, second_near_camp] \<and>
      calculate_distance (0, 0)
        (latitude ([far_camp, first_near_camp, second_near_camp] ! i),
         longitude ([far_camp, first_near_camp, second_near_camp] ! i)) = Inr d \<and>
      nearest_camp_scan (0, 0) [far_camp, first_near_camp, second_near_camp] =
        Inr (Some ([far_camp, first_near_camp, second_near_camp] ! i), Finite d) \<and>
      (\<forall>j < length [far_camp, first_near_camp, second_near_camp]. \<exists>d'.
         calculate_distance (0, 0)
           (latitude ([far_camp, first_near_camp, second_near_camp] ! j),
            longitude ([far_camp, first_near_camp, second_near_camp] ! j)) = Inr d' \<and>
         d \<le> d') \<and>
      (\<forall>j < i. \<exists>d'.
         calculate_distance (0, 0)
           (latitude ([far_camp, first_near_camp, second_near_camp] ! j),
            longitude ([far_camp, first_near_camp, second_near_camp] ! j)) = Inr d' \<and>
         d < d'))"
proof -
  have ne: "[far_camp, first_near_camp, second_near_camp] \<noteq> []" by simp
  have "nearest_camp_scan (0, 0) [far_camp, first_near_camp, second_near_camp] =
      Inr (Some first_near_camp, Finite 0)"
    by (simp add: nearest_camp_scan_def far_camp_def first_near_camp_def second_near_camp_def
        calculate_distance_def radians_def math_sqrt_def math_asin_def Let_def)
  with ne nearest_camp_first_minimum [OF ne, of "(0, 0)"] show ?thesis
    by blast
qed

subsection \<open>Fastest route\<close>

lemma dict_get_map_of:
  "dict_get d k PNone = PStr s \<longleftrightarrow> map_of d k = Some (PStr s)"
  by (simp add: dict_get_def split: option.splits)

text \<open>
  C5: when the request fails to connect, times out, is answered with an HTTP error
  status, or is answered with a JSON object whose code is not "Ok" or whose routes array is
  empty, \<open>get_fastest_route\<close> returns \<^verbatim>\<open>None\<close> and raises nothing; when the answer has the
  code "Ok" and a non-empty routes array, it returns the first route.
\<close>

theorem fastest_route_unavailable_or_first:
  assumes "respond net (calls net) (OsrmRoute (snd src) (fst src) (snd dst) (fst dst)) = outcome"
  shows "(outcome = ConnectionError \<or> outcome = Timeout \<or>
          (\<exists>status body. outcome = Response status body \<and> 400 \<le> status \<and> status < 600) \<or>
          (\<exists>status data. outcome = Response status (Some (PDict data)) \<and>
             (map_of data ''code'' \<noteq> Some (PStr ''Ok'') \<or>
              map_of data ''routes'' = Some (PList [])))
          \<longrightarrow> fst (get_fastest_route net src dst) = Inr None) \<and>
         (\<forall>status data route rest.
            outcome = Response status (Some (PDict data)) \<and> \<not> (400 \<le> status \<and> status < 600) \<and>
            map_of data ''code'' = Some (PStr ''Ok'') \<and>
            map_of data ''routes'' = Some (PList (route # rest))
            \<longrightarrow> fst (get_fastest_route net src dst) = Inr (Some route))"
proof -
  have run: "fst (get_fastest_route net src dst) = route_of_outcome outcome"
    using assms by (simp add: get_fastest_route_def requests_get_def)
  have "route_of_outcome ConnectionError = Inr None" "route_of_outcome Timeout = Inr None"
    by (simp_all add: route_of_outcome_def)
  moreover have "route_of_outcome (Response status body) = Inr None"
    if "400 \<le> status" "status < 600" for status body
    using that by (simp add: route_of_outcome_def raise_for_status_def)
  moreover have "route_of_outcome (Response status (Some (PDict data))) = Inr None"
    if "map_of data ''code'' \<noteq> Some (PStr ''Ok'') \<or> map_of data ''routes'' = Some (PList [])"
    for status data
    using that by (auto simp: route_of_outcome_def dict_get_map_of) (simp add: dict_get_def)
  moreover have "route_of_outcome (Response status (Some (PDict data))) = Inr (Some route)"
    if "\<not> (400 \<le> status \<and> status < 600)" "map_of data ''code'' = Some (PStr ''Ok'')"
      "map_of data ''routes'' = Some (PList (route # rest))"
    for status data route rest
    using that by (simp add: route_of_outcome_def raise_for_status_def dict_get_def)
  ultimately show ?thesis
    unfolding run by blast
qed

theorem fastest_route_unavailable_or_first_witness:
  "fst (get_fastest_route offline_net (0, 0) (1, 1)) = Inr None \<and>
   fst (get_fastest_route slow_net (0, 0) (1, 1)) = Inr None \<and>
   fst (get_fastest_route no_route_net (0, 0) (1, 1)) = Inr None \<and>
   fst (get_fastest_route one_route_net (0, 0) (1, 1)) = Inr (Some (demo_route 3000 300))"
proof -
  have "fst (get_fastest_route offline_net (0, 0) (1, 1)) = Inr None"
    using fastest_route_unavailable_or_first [of offline_net "(0, 0)" "(1, 1)" ConnectionError]
    by (simp add: offline_net_def)
  moreover have "fst (get_fastest_route slow_net (0, 0) (1, 1)) = Inr None"
    using fastest_route_unavailable_or_first [of slow_net "(0, 0)" "(1, 1)" Timeout]
    by (simp add: slow_net_def)
  moreover have "fst (get_fastest_route no_route_net (0, 0) (1, 1)) = Inr None"
    using fastest_route_unavailable_or_first [of no_route_net "(0, 0)" "(1, 1)"
        "Response 200 (Some (PDict [(''code'', PStr ''NoRoute''), (''routes'', PList [])]))"]
    by (simp add: no_route_net_def)
  moreover have "fst (get_fastest_route one_route_net (0, 0) (1, 1)) = Inr (Some (demo_route 3000 300))"
    using fastest_route_unavailable_or_first [of one_route_net "(0, 0)" "(1, 1)"
        "Response 200 (Some (osrm_body (PList [demo_route 3000 300, demo_route 9000 900])))"]
    by (simp add: one_route_net_def osrm_body_def)
  ultimately show ?thesis by simp
qed

subsection \<open>Weather fetch\<close>

lemma weather_of_parsed:
  assumes "\<not> (400 \<le> status \<and> status < 600)"
    and "map_of data ''current'' = Some (PDict current) \<or>
         map_of data ''current'' = None \<and> current = []"
  shows "weather_of_outcome (Response status (Some (PDict data))) = parsed_weather current"
proof -
  from assms(2) have cur: "dict_get data ''current'' (PDict []) = PDict current"
    by (auto simp: dict_get_def)
  from assms(1) have ok: "\<not> raise_for_status status"
    by (simp add: raise_for_status_def)
  show ?thesis
    by (simp add: weather_of_outcome_def ok cur parsed_weather_def) (simp add: dict_get_def)
qed

lemma weather_of_other:
  assumes none: "\<forall>status data current.
        \<not> (outcome = Response status (Some (PDict data)) \<and>
           \<not> (400 \<le> status \<and> status < 600) \<and>
           (map_of data ''current'' = Some (PDict current) \<or>
            map_of data ''current'' = None \<and> current = []))"
  shows "weather_of_outcome outcome = fallback_weather"
proof (cases outcome)
  case (Response status body)
  show ?thesis
  proof (cases "raise_for_status status")
    case True
    then show ?thesis by (simp add: Response weather_of_outcome_def)
  next
    case False
    then have ok: "\<not> (400 \<le> status \<and> status < 600)"
      by (simp add: raise_for_status_def)
    show ?thesis
    proof (cases body)
      case None
      then show ?thesis by (simp add: Response weather_of_outcome_def)
    next
      case (Some v)
      show ?thesis
      proof (cases v)
        case (PDict data)
        have "map_of data ''current'' \<noteq> None"
          using none [THEN spec, THEN spec, THEN spec, of status data "[]"] ok
          by (simp add: Response Some PDict)
        moreover have "map_of data ''current'' \<noteq> Some (PDict current)" for current
          using none [THEN spec, THEN spec, THEN spec, of status data current] ok
          by (simp add: Response Some PDict)
        ultimately have "map_of data ''current'' \<noteq> None"
          "\<And>current. map_of data ''current'' \<noteq> Some (PDict current)"
          by simp_all
        then obtain x where x: "map_of data ''current'' = Some x"
          and nd: "\<And>current. x \<noteq> PDict current"
          by (cases "map_of data ''current''") auto
        note shape = Response Some PDict
        show ?thesis
        proof (cases x)
          case (PDict c)
          with nd [of c] show ?thesis by simp
        qed (simp_all add: shape weather_of_outcome_def dict_get_def x)
      qed (simp_all add: Response Some weather_of_outcome_def)
    qed
  qed
qed (simp_all add: weather_of_outcome_def)

text \<open>
  C9 (the claim as stated fails): when the provider cannot be reached, the time field of
  the returned record is the string "N/A", not the empty string.
\<close>

theorem weather_failure_time_counterexample:
  "time (fst (fetch_realtime_weather offline_net 0 0)) = PStr ''N/A'' \<and>
   time (fst (fetch_realtime_weather offline_net 0 0)) \<noteq> PStr ''''"
  by (simp add: fetch_realtime_weather_def requests_get_def offline_net_def
      weather_of_outcome_def fallback_weather_def)

text \<open>
  C9 (as amended): the weather fetch raises nothing and always returns a complete record.
  For a decoded answer whose \<^verbatim>\<open>current\<close> is a dictionary or is missing, each field is the
  value present and, where absent, 0 for the numeric fields and the empty string for the
  time. On a provider failure (no connection, timeout, HTTP error status, undecodable
  body), and on every other answer, the numeric fields are 0 and the time is "N/A".
\<close>

theorem weather_fetch_defaults:
  assumes "respond net (calls net) (OpenMeteoForecast lat lon) = outcome"
  shows "(\<forall>status data current.
            outcome = Response status (Some (PDict data)) \<and> \<not> (400 \<le> status \<and> status < 600) \<and>
            (map_of data ''current'' = Some (PDict current) \<or>
             map_of data ''current'' = None \<and> current = [])
            \<longrightarrow> fst (fetch_realtime_weather net lat lon) =
                  \<lparr>wind_speed = (case map_of current ''wind_speed_10m'' of None \<Rightarrow> PNum 0 | Some v \<Rightarrow> v),
                   wind_gust = (case map_of current ''wind_gusts_10m'' of None \<Rightarrow> PNum 0 | Some v \<Rightarrow> v),
                   precipitation = (case map_of current ''precipitation'' of None \<Rightarrow> PNum 0 | Some v \<Rightarrow> v),
                   weather_code = (case map_of current ''weather_code'' of None \<Rightarrow> PNum 0 | Some v \<Rightarrow> v),
                   time = (case map_of current ''time'' of None \<Rightarrow> PStr '''' | Some v \<Rightarrow> v)\<rparr>) \<and>
         (outcome = ConnectionError \<or> outcome = Timeout \<or>
          (\<exists>status body. outcome = Response status body \<and> 400 \<le> status \<and> status < 600) \<or>
          (\<exists>status. outcome = Response status None)
          \<longrightarrow> fst (fetch_realtime_weather net lat lon) =
                \<lparr>wind_speed = PNum 0, wind_gust = PNum 0, precipitation = PNum 0,
                 weather_code = PNum 0, time = PStr ''N/A''\<rparr>) \<and>
         ((\<forall>status data current.
             \<not> (outcome = Response status (Some (PDict data)) \<and>
                \<not> (400 \<le> status \<and> status < 600) \<and>
                (map_of data ''current'' = Some (PDict current) \<or>
                 map_of data ''current'' = None \<and> current = [])))
          \<longrightarrow> fst (fetch_realtime_weather net lat lon) =
                \<lparr>wind_speed = PNum 0, wind_gust = PNum 0, precipitation = PNum 0,
                 weather_code = PNum 0, time = PStr ''N/A''\<rparr>)"
proof (intro conjI allI impI)
  have run: "fst (fetch_realtime_weather net lat lon) = weather_of_outcome outcome"
    using assms by (simp add: fetch_realtime_weather_def requests_get_def)
  {
    fix status data current
    assume a: "outcome = Response status (Some (PDict data)) \<and>
        \<not> (400 \<le> status \<and> status < 600) \<and>
        (map_of data ''current'' = Some (PDict current) \<or>
         map_of data ''current'' = None \<and> current = [])"
    then have "weather_of_outcome outcome = parsed_weather current"
      using weather_of_parsed [of status data current] by simp
    then show "fst (fetch_realtime_weather net lat lon) =
        \<lparr>wind_speed = (case map_of current ''wind_speed_10m'' of None \<Rightarrow> PNum 0 | Some v \<Rightarrow> v),
         wind_gust = (case map_of current ''wind_gusts_10m'' of None \<Rightarrow> PNum 0 | Some v \<Rightarrow> v),
         precipitation = (case map_of current ''precipitation'' of None \<Rightarrow> PNum 0 | Some v \<Rightarrow> v),
         weather_code = (case map_of current ''weather_code'' of None \<Rightarrow> PNum 0 | Some v \<Rightarrow> v),
         time = (case map_of current ''time'' of None \<Rightarrow> PStr '''' | Some v \<Rightarrow> v)\<rparr>"
      by (simp only: run parsed_weather_def)
  }
  {
    assume "outcome = ConnectionError \<or> outcome = Timeout \<or>
        (\<exists>status body. outcome = Response status body \<and> 400 \<le> status \<and> status < 600) \<or>
        (\<exists>status. outcome = Response status None)"
    then have "weather_of_outcome outcome = fallback_weather"
      by (auto simp: weather_of_outcome_def raise_for_status_def)
    then show "fst (fetch_realtime_weather net lat lon) =
        \<lparr>wind_speed = PNum 0, wind_gust = PNum 0, precipitation = PNum 0,
         weather_code = PNum 0, time = PStr ''N/A''\<rparr>"
      by (simp only: run fallback_weather_def)
  }
  {
    assume "\<forall>status data current.
        \<not> (outcome = Response status (Some (PDict data)) \<and>
           \<not> (400 \<le> status \<and> status < 600) \<and>
           (map_of data ''current'' = Some (PDict current) \<or>
            map_of data ''current'' = None \<and> current = []))"
    then have "weather_of_outcome outcome = fallback_weather"
      by (rule weather_of_other)
    then show "fst (fetch_realtime_weather net lat lon) =
        \<lparr>wind_speed = PNum 0, wind_gust = PNum 0, precipitation = PNum 0,
         weather_code = PNum 0, time = PStr ''N/A''\<rparr>"
      by (simp only: run fallback_weather_def)
  }
qed

theorem weather_fetch_defaults_witness:
  "fst (fetch_realtime_weather sparse_weather_net 20 85) =
     \<lparr>wind_speed = PNum 42, wind_gust = PNum 0, precipitation = PNum 0,
      weather_code = PNum 0, time = PStr ''''\<rparr> \<and>
   fst (fetch_realtime_weather offline_net 20 85) =
     \<lparr>wind_speed = PNum 0, wind_gust = PNum 0, precipitation = PNum 0,
      weather_code = PNum 0, time = PStr ''N/A''\<rparr> \<and>
   fst (fetch_realtime_weather garbled_weather_net 20 85) =
     \<lparr>wind_speed = PNum 0, wind_gust = PNum 0, precipitation = PNum 0,
      weather_code = PNum 0, time = PStr ''N/A''\<rparr>"
proof -
  have "fst (fetch_realtime_weather sparse_weather_net 20 85) =
     \<lparr>wind_speed = PNum 42, wind_gust = PNum 0, precipitation = PNum 0,
      weather_code = PNum 0, time = PStr ''''\<rparr>"
    using weather_fetch_defaults [of sparse_weather_net 20 85
        "Response 200 (Some (PDict [(''current'', PDict [(''wind_speed_10m'', PNum 42)])]))"]
    by (simp add: sparse_weather_net_def)
  moreover have "fst (fetch_realtime_weather offline_net 20 85) =
     \<lparr>wind_speed = PNum 0, wind_gust = PNum 0, precipitation = PNum 0,
      weather_code = PNum 0, time = PStr ''N/A''\<rparr>"
    using weather_fetch_defaults [of offline_net 20 85 ConnectionError]
    by (simp add: offline_net_def)
  moreover have "fst (fetch_realtime_weather garbled_weather_net 20 85) =
     \<lparr>wind_speed = PNum 0, wind_gust = PNum 0, precipitation = PNum 0,
      weather_code = PNum 0, time = PStr ''N/A''\<rparr>"
    using weather_fetch_defaults [of garbled_weather_net 20 85
        "Response 200 (Some (PDict [(''current'', PNone)]))"]
    by (simp add: garbled_weather_net_def)
  ultimately show ?thesis by simp
qed

subsection \<open>Ranked routes\<close>

lemma well_formed_route_entry:
  assumes "route_well_formed route"
  shows "\<exists>e. ranked_route_spec dest route = Some e \<and> route_entry dest route = Inr e \<and>
             truthy route"
proof -
  from assms obtain kvs where route: "route = PDict kvs"
    by (cases route) simp_all
  have wf: "route_well_formed (PDict kvs)"
    using assms by (simp only: route)
  obtain d where d: "map_of kvs ''distance'' = Some (PNum d)"
    using wf by (cases "map_of kvs ''distance''"; cases "the (map_of kvs ''distance'')") simp_all
  obtain t where t: "map_of kvs ''duration'' = Some (PNum t)"
    using wf d by (cases "map_of kvs ''duration''"; cases "the (map_of kvs ''duration'')") simp_all
  obtain g where g: "map_of kvs ''geometry'' = Some g"
    using wf d t by (cases "map_of kvs ''geometry''") simp_all
  from d have "kvs \<noteq> []" by auto
  then show ?thesis
    unfolding route by (simp add: route_entry_def number_at_def d t g)
qed

lemma map_filter_map: "List.map_filter f (map g xs) = List.map_filter (f \<circ> g) xs"
  by (induction xs) (simp_all add: List.map_filter_simps split: option.splits)

lemma upt_shift: "[0..<Suc n] = 0 # map Suc [0..<n]"
  by (simp add: upt_conv_Cons map_Suc_upt del: upt_Suc)

lemma get_fastest_route_run:
  "get_fastest_route net src (latitude dest, longitude dest) =
     (route_of_outcome (respond net (calls net) (osrm_url src dest)),
      net\<lparr>calls := calls net @ [osrm_url src dest]\<rparr>)"
  by (simp add: get_fastest_route_def requests_get_def osrm_url_def Let_def)

lemma ranked_at_Suc:
  "ranked_at net src (d # ds) (Suc i) =
     ranked_at (net\<lparr>calls := calls net @ [osrm_url src d]\<rparr>) src ds i"
  by (simp add: ranked_at_def fastest_at_def split: sum.splits option.splits)

lemma available_routes_Cons:
  "available_routes net src (d # ds) =
     (case ranked_at net src (d # ds) 0 of None \<Rightarrow> [] | Some e \<Rightarrow> [e]) @
     available_routes (net\<lparr>calls := calls net @ [osrm_url src d]\<rparr>) src ds"
proof -
  have "ranked_at net src (d # ds) \<circ> Suc =
      ranked_at (net\<lparr>calls := calls net @ [osrm_url src d]\<rparr>) src ds"
    by (rule ext) (simp add: ranked_at_Suc)
  then show ?thesis
    unfolding available_routes_def length_Cons upt_shift
    by (simp add: List.map_filter_simps map_filter_map split: option.splits)
qed

lemma routes_loop_available:
  assumes "provider_well_formed net"
  shows "routes_loop net src dests acc =
           (Inr (acc @ available_routes net src dests),
            net\<lparr>calls := calls net @ map (osrm_url src) dests\<rparr>)"
  using assms
proof (induction dests arbitrary: net acc)
  case Nil
  then show ?case by (simp add: available_routes_def List.map_filter_simps)
next
  case (Cons d ds)
  let ?net' = "net\<lparr>calls := calls net @ [osrm_url src d]\<rparr>"
  let ?r = "route_of_outcome (respond net (calls net) (osrm_url src d))"
  have wf': "provider_well_formed ?net'"
    using Cons.prems by (simp add: provider_well_formed_def)
  note IH = Cons.IH [OF wf']
  have first: "fastest_at net src (d # ds) 0 = ?r"
    by (simp add: fastest_at_def)
  have ok: "outcome_well_formed (respond net (calls net) (osrm_url src d))"
    using Cons.prems by (simp add: provider_well_formed_def)
  consider (none) "?r = Inr None" | (some) route where "?r = Inr (Some route)" "route_well_formed route"
    using ok by (auto simp: outcome_well_formed_def split: sum.splits option.splits)
  then show ?case
  proof cases
    case none
    then have "ranked_at net src (d # ds) 0 = None"
      by (simp add: ranked_at_def first)
    then show ?thesis
      using none by (simp add: get_fastest_route_run IH available_routes_Cons)
  next
    case some
    from well_formed_route_entry [OF some(2), of d] obtain e where
      e: "ranked_route_spec d route = Some e" "route_entry d route = Inr e" "truthy route"
      by blast
    have "ranked_at net src (d # ds) 0 = Some e"
      using some(1) e(1) by (simp add: ranked_at_def first)
    then show ?thesis
      using some(1) e by (simp add: get_fastest_route_run IH available_routes_Cons)
  qed
qed

lemma ranked_at_destination:
  assumes "provider_well_formed net"
  shows "(ranked_at net src shelters i = None \<longleftrightarrow> fastest_at net src shelters i = Inr None) \<and>
         (\<forall>e. ranked_at net src shelters i = Some e \<longrightarrow> destination e = shelters ! i)"
proof -
  have ok: "outcome_well_formed
      (respond net (calls net @ map (osrm_url src) (take i shelters)) (osrm_url src (shelters ! i)))"
    using assms by (simp add: provider_well_formed_def)
  consider (none) "fastest_at net src shelters i = Inr None"
    | (some) route where "fastest_at net src shelters i = Inr (Some route)" "route_well_formed route"
    using ok unfolding fastest_at_def outcome_well_formed_def
    by (auto split: sum.splits option.splits)
  then show ?thesis
  proof cases
    case none
    then show ?thesis by (simp add: ranked_at_def)
  next
    case some
    from well_formed_route_entry [OF some(2), of "shelters ! i"] obtain e where
      e: "ranked_route_spec (shelters ! i) route = Some e" "route_entry (shelters ! i) route = Inr e"
      by blast
    from some(2) obtain kvs where route: "route = PDict kvs"
      by (cases route) simp_all
    have "destination e = shelters ! i"
      using e(1) unfolding route
      by (auto split: option.splits pyval.splits)
    then show ?thesis
      using some(1) e(1) by (simp add: ranked_at_def)
  qed
qed

lemma map_destination_map_filter:
  assumes "\<And>x e. f x = Some e \<Longrightarrow> destination e = g x"
  shows "map destination (List.map_filter f xs) = map g (filter (\<lambda>x. f x \<noteq> None) xs)"
  using assms by (induction xs) (auto simp: List.map_filter_simps split: option.splits)

text \<open>
  C3: with a provider that keeps to its interface, \<open>get_multiple_routes\<close> asks for the
  fastest route once per shelter, in the order of the shelters; it returns the records of
  the shelters whose route is available (distance in km = distance / 1000, duration in
  minutes = duration / 60), the shelters without a route dropped, sorted ascending by
  duration; records of equal duration keep their input order.
\<close>

theorem get_multiple_routes_ranked:
  assumes "provider_well_formed net"
  shows "get_multiple_routes net src shelters =
           (Inr (rankRoutes_spec net src shelters),
            net\<lparr>calls := calls net @ map (osrm_url src) shelters\<rparr>) \<and>
         map destination (available_routes net src shelters) =
           map (nth shelters)
             (filter (\<lambda>i. fastest_at net src shelters i \<noteq> Inr None) [0..<length shelters]) \<and>
         sorted (map duration_min (rankRoutes_spec net src shelters)) \<and>
         (\<forall>k. filter (\<lambda>r. duration_min r = k) (rankRoutes_spec net src shelters) =
              filter (\<lambda>r. duration_min r = k) (available_routes net src shelters))"
proof -
  have run: "get_multiple_routes net src shelters =
      (Inr (rankRoutes_spec net src shelters),
       net\<lparr>calls := calls net @ map (osrm_url src) shelters\<rparr>)"
    by (simp add: get_multiple_routes_def routes_loop_available [OF assms] rankRoutes_spec_def)
  have kept: "map destination (available_routes net src shelters) =
      map (nth shelters)
        (filter (\<lambda>i. fastest_at net src shelters i \<noteq> Inr None) [0..<length shelters])"
  proof -
    have "map destination (available_routes net src shelters) =
        map (nth shelters)
          (filter (\<lambda>i. ranked_at net src shelters i \<noteq> None) [0..<length shelters])"
      unfolding available_routes_def
      using ranked_at_destination [OF assms, of src shelters]
      by (intro map_destination_map_filter) blast
    also have "(\<lambda>i. ranked_at net src shelters i \<noteq> None) =
        (\<lambda>i. fastest_at net src shelters i \<noteq> Inr None)"
      using ranked_at_destination [OF assms, of src shelters] by (intro ext) simp
    finally show ?thesis .
  qed
  have "sorted (map duration_min (rankRoutes_spec net src shelters))"
    by (simp add: rankRoutes_spec_def)
  moreover have "\<forall>k. filter (\<lambda>r. duration_min r = k) (rankRoutes_spec net src shelters) =
      filter (\<lambda>r. duration_min r = k) (available_routes net src shelters)"
    by (simp add: rankRoutes_spec_def sort_key_stable)
  ultimately show ?thesis
    using run kept by blast
qed

theorem get_multiple_routes_ranked_witness:
  "provider_well_formed ranking_net \<and>
   get_multiple_routes ranking_net (0, 0) four_shelters =
     (Inr [\<lparr>destination = shelter_at ''D'' 4, distance_km = 3, duration_min = 5,
            geometry = PDict [(''type'', PStr ''LineString'')]\<rparr>,
           \<lparr>destination = shelter_at ''A'' 1, distance_km = 6, duration_min = 10,
            geometry = PDict [(''type'', PStr ''LineString'')]\<rparr>,
           \<lparr>destination = shelter_at ''C'' 3, distance_km = 6, duration_min = 10,
            geometry = PDict [(''type'', PStr ''LineString'')]\<rparr>],
      ranking_net\<lparr>calls := [OsrmRoute 0 0 1 1, OsrmRoute 0 0 2 2, OsrmRoute 0 0 3 3,
                               OsrmRoute 0 0 4 4]\<rparr>)"
proof -
  have wf: "provider_well_formed ranking_net"
    by (simp add: provider_well_formed_def ranking_net_def outcome_well_formed_def
      route_of_outcome_def raise_for_status_def osrm_body_def demo_route_def dict_get_def)
  have spec: "rankRoutes_spec ranking_net (0, 0) four_shelters =
      [\<lparr>destination = shelter_at ''D'' 4, distance_km = 3, duration_min = 5,
            geometry = PDict [(''type'', PStr ''LineString'')]\<rparr>,
           \<lparr>destination = shelter_at ''A'' 1, distance_km = 6, duration_min = 10,
            geometry = PDict [(''type'', PStr ''LineString'')]\<rparr>,
           \<lparr>destination = shelter_at ''C'' 3, distance_km = 6, duration_min = 10,
            geometry = PDict [(''type'', PStr ''LineString'')]\<rparr>]"
    by (simp add: rankRoutes_spec_def available_routes_def four_shelters_def ranked_at_def
        fastest_at_def ranking_net_def osrm_url_def shelter_at_def route_of_outcome_def
        raise_for_status_def osrm_body_def demo_route_def dict_get_def upt_rec
        List.map_filter_simps)
  have calls: "calls ranking_net @ map (osrm_url (0, 0)) four_shelters =
      [OsrmRoute 0 0 1 1, OsrmRoute 0 0 2 2, OsrmRoute 0 0 3 3, OsrmRoute 0 0 4 4]"
    by (simp add: ranking_net_def four_shelters_def osrm_url_def shelter_at_def)
  show ?thesis
    using wf get_multiple_routes_ranked [OF wf, of "(0, 0)" four_shelters]
    by (simp only: spec calls)
qed

end
